theory Spec2Isabelle
  imports Main "HOL-Library.Word"
begin

section \<open>Data model of package state\<close>

text \<open>
  Go's \<open>int\<close> is a 64-bit two's complement integer on the build target of the repository
  (\<open>GOARCH=amd64\<close>): \<open>+\<close> and \<open>-\<close> wrap, and the comparisons of the source are
  signed, written here through \<open>sint\<close>. Instants and durations are integers
  (nanoseconds); the clock is read by the caller and handed in.
\<close>

type_synonym go_int = "64 word"
type_synonym time = int
type_synonym bytes = "8 word list"

text \<open>\<open>type Status int64\<close> with the constants \<open>Unknown = iota\<close>, \<open>Available\<close>,
  \<open>Complete\<close>, \<open>Failed\<close>.\<close>

datatype Status = Unknown | Available | Complete | Failed

text \<open>
  The values of Go's \<open>error\<close> interface that occur in the repository: \<open>errors.New s\<close>
  (and every other error without a non-retryable mark), \<open>NonRetryableError s\<close>, and
  \<open>fmt.Errorf\<close> with a \<open>%w\<close> verb, which keeps the formatted message and wraps an error.
\<close>

datatype error = New string | NonRetryableError string | Errorf_w string error

fun Error :: "error \<Rightarrow> string" where
  "Error (New s) = s"
| "Error (NonRetryableError s) = s"
| "Error (Errorf_w s e) = s"

text \<open>\<open>IsRetryable e = !errors.As(e, &t)\<close> with \<open>t\<close> a \<open>*nonRetryableError\<close>:
  \<open>errors.As\<close> walks the chain of wrapped errors; \<open>nonRetryableError\<close> has no
  \<open>Unwrap\<close> method, so the chain ends there.\<close>

fun IsRetryable :: "error \<Rightarrow> bool" where
  "IsRetryable (New s) = True"
| "IsRetryable (NonRetryableError s) = False"
| "IsRetryable (Errorf_w s e) = IsRetryable e"

record BaseModel =
  ID :: string
  Version :: go_int
  CreatedAt :: time
  UpdatedAt :: time

record Partition = BaseModel +
  Gate :: go_int
  Status :: Status
  Owner :: string
  Until :: time

text \<open>\<open>Item\<close> embeds \<open>BaseModel\<close> too; its fields \<open>Gate\<close>, \<open>Status\<close> and
  \<open>UpdatedAt\<close> carry the prefix \<open>Item\<close> here, since a field name belongs to one
  record.\<close>

record Item = BaseModel +
  RetryCount :: go_int
  PartitionID :: string
  ItemGate :: go_int
  ItemStatus :: Status
  ErrorMessages :: string
  ItemUpdatedAt :: time
  Data :: bytes

subsection \<open>The Model interface on BaseModel\<close>

definition GetID :: "'a BaseModel_scheme \<Rightarrow> string" where
  "GetID m = ID m"

definition GetVersion :: "'a BaseModel_scheme \<Rightarrow> go_int" where
  "GetVersion m = Version m"

definition IncrementVersion :: "'a BaseModel_scheme \<Rightarrow> 'a BaseModel_scheme" where
  "IncrementVersion m = m\<lparr>Version := Version m + 1\<rparr>"

definition DecrementVersion :: "'a BaseModel_scheme \<Rightarrow> 'a BaseModel_scheme" where
  "DecrementVersion m = m\<lparr>Version := Version m - 1\<rparr>"

subsection \<open>Partition predicates\<close>

definition Expired :: "time \<Rightarrow> Partition \<Rightarrow> bool" where
  "Expired now p = (Until p < now)"

definition Active :: "time \<Rightarrow> Partition \<Rightarrow> bool" where
  "Active now p = (Status p = Available \<and> \<not> Expired now p)"

section \<open>Repository: Save with optimistic concurrency control\<close>

text \<open>
  A table holds one row per identifier. The object-relational mapper is a library outside
  the repository: \<open>GormRepo.Save\<close> hands it the version predicate
  \<open>version = ?\<close> and the model, and reads only the \<open>Error\<close> of what comes back. Here
  it is a parameter: a function from the table, the predicate's value and the model to
  the error (if any) and the table afterwards.
\<close>

type_synonym 'a table = "string \<rightharpoonup> 'a BaseModel_scheme"
type_synonym 'a orm = "'a table \<Rightarrow> go_int \<Rightarrow> 'a BaseModel_scheme \<Rightarrow> error option \<times> 'a table"

text \<open>\<open>GormRepo.Save\<close>: remember the version, increment it in memory, save under the
  predicate on the remembered version; on an error decrement again and return false.
  The result is the table, the model as the caller sees it afterwards, and the boolean.\<close>

definition Save :: "'a orm \<Rightarrow> 'a table \<Rightarrow> 'a BaseModel_scheme \<Rightarrow> 'a table \<times> 'a BaseModel_scheme \<times> bool" where
  "Save orm db m =
     (let version = GetVersion m;
          m1 = IncrementVersion m;
          (err, db') = orm db version m1
      in if err \<noteq> None then (db', DecrementVersion m1, False)
         else (db', m1, True))"

text \<open>
  The save of the library as the repository uses it. It first runs the statement the
  README gives,
  \<open>UPDATE <table> SET version=$current_version+1 <other fields ...>
   WHERE id = $id AND version=$current_version\<close>: the row of the model's identifier is
  replaced when its version is the predicate's value. When the update matches no row,
  the library inserts the model: where no row has the identifier the insert succeeds
  (this is how \<open>getTestRepo\<close> fills an empty database through \<open>Save\<close>), and where
  a row with another version is stored the insert fails on the primary key.
\<close>

definition occ_update :: "'a orm" where
  "occ_update db version m =
     (case db (ID m) of
        None \<Rightarrow> (None, db(ID m \<mapsto> m))
      | Some row \<Rightarrow>
          if Version row = version then (None, db(ID m \<mapsto> m))
          else (Some (New ''UNIQUE constraint failed''), db))"

text \<open>A mapper whose every call fails, as with a lost connection.\<close>

definition db_down :: "'a orm" where
  "db_down db version m = (Some (New ''database is locked''), db)"

text \<open>A row stored at version 3, and a stale copy of it at version 2.\<close>

definition row3 :: BaseModel where
  "row3 = \<lparr>ID = ''p1'', Version = 3, CreatedAt = 0, UpdatedAt = 0\<rparr>"

definition stale2 :: BaseModel where
  "stale2 = \<lparr>ID = ''p1'', Version = 2, CreatedAt = 0, UpdatedAt = 0\<rparr>"

section \<open>Item error accumulation\<close>

text \<open>
  \<open>Item.error\<close>, with the package variable \<open>MaxRetries\<close> as a parameter:
  \<open>RetryCount++\<close>; the message is stored if \<open>ErrorMessages\<close> is empty, and appended
  after a newline if \<open>ErrorMessages\<close> differs from it; the status becomes \<open>Failed\<close>
  if the error is not retryable or the count has passed a non-negative \<open>MaxRetries\<close>.
\<close>

definition Item_error :: "go_int \<Rightarrow> error \<Rightarrow> Item \<Rightarrow> Item" where
  "Item_error MaxRetries err i =
     (let i1 = i\<lparr>RetryCount := RetryCount i + 1\<rparr>;
          i2 = (if ErrorMessages i1 = [] then i1\<lparr>ErrorMessages := Error err\<rparr>
                else if ErrorMessages i1 \<noteq> Error err
                then i1\<lparr>ErrorMessages := ErrorMessages i1 @ [CHR 0x0A] @ Error err\<rparr>
                else i1)
      in if \<not> IsRetryable err \<or>
            (sint MaxRetries < sint (RetryCount i2) \<and> 0 \<le> sint MaxRetries)
         then i2\<lparr>ItemStatus := Failed\<rparr>
         else i2)"

text \<open>Consecutive dispatch failures of one item: \<open>error\<close> called once per failure, in
  order.\<close>

fun failures :: "go_int \<Rightarrow> error list \<Rightarrow> Item \<Rightarrow> Item" where
  "failures MaxRetries [] i = i"
| "failures MaxRetries (e # es) i = failures MaxRetries es (Item_error MaxRetries e i)"

text \<open>
  The accumulation rule with the message appended last kept beside the accumulated
  string: the wording "if the last appended message differs from e.message, append",
  written out for comparison with \<open>Item.error\<close>.
\<close>

definition dedup_last :: "string \<times> string option \<Rightarrow> string \<Rightarrow> string \<times> string option" where
  "dedup_last s msg =
     (case s of (messages, appended) \<Rightarrow>
        if messages = [] then (msg, Some msg)
        else if appended \<noteq> Some msg then (messages @ [CHR 0x0A] @ msg, Some msg)
        else (messages, appended))"

section \<open>The dispatcher\<close>

record ProcessorResponse =
  pr_NextGate :: go_int
  pr_Complete :: bool
  pr_Data :: bytes

text \<open>A function that returns normally, or panics (a nil pointer dereference); in both
  cases with the state its deferred calls leave.\<close>

datatype 'a outcome = Returns 'a | Panics 'a

text \<open>
  \<open>Watcher.processItem\<close> up to its deferred save, given what \<open>w.Process\<close>
  returned. \<open>Process\<close> returns a pair of a
  response pointer and an error: with an error the item goes through \<open>error\<close> and the
  function returns; without one the response is dereferenced (a panic when it is nil),
  \<open>Status\<close> becomes \<open>Complete\<close> if the response says so, and \<open>Gate\<close> and \<open>Data\<close> are
  taken from the response.
\<close>

definition processItem_body :: "go_int \<Rightarrow> ProcessorResponse option \<times> error option \<Rightarrow> Item \<Rightarrow> Item outcome" where
  "processItem_body MaxRetries r i =
     (case snd r of
        Some err \<Rightarrow> Returns (Item_error MaxRetries err i)
      | None \<Rightarrow>
          (case fst r of
             None \<Rightarrow> Panics i
           | Some resp \<Rightarrow>
               Returns ((if pr_Complete resp then i\<lparr>ItemStatus := Complete\<rparr> else i)
                          \<lparr>ItemGate := pr_NextGate resp, Data := pr_Data resp\<rparr>)))"

text \<open>\<open>Watcher.processItem\<close>: the body, then the deferred \<open>Save\<close> of the item (whose
  false return is only logged). The parameter \<open>process\<close> is the \<open>Process\<close> method of
  the watcher's processor, called with the identifier and the data of the item.\<close>

definition processItem ::
  "(string \<Rightarrow> bytes \<Rightarrow> ProcessorResponse option \<times> error option) \<Rightarrow> go_int \<Rightarrow>
   unit Item_ext orm \<Rightarrow> unit Item_ext table \<Rightarrow> Item \<Rightarrow> (unit Item_ext table \<times> Item \<times> bool) outcome" where
  "processItem process MaxRetries orm db i =
     (case processItem_body MaxRetries (process (ID i) (Data i)) i of
        Returns j \<Rightarrow> Returns (Save orm db j)
      | Panics j \<Rightarrow> Panics (Save orm db j))"

text \<open>A fresh item, as a test of the repository creates one.\<close>

definition fresh :: Item where
  "fresh = \<lparr>ID = ''s1'', Version = 0, CreatedAt = 0, UpdatedAt = 0, RetryCount = 0,
     PartitionID = ''p1'', ItemGate = 0, ItemStatus = Available, ErrorMessages = [],
     ItemUpdatedAt = 0, Data = []\<rparr>"


text \<open>A processor that fails every item with a retryable error, as the test processor
  does on \<open>"fail": true\<close>.\<close>

definition failing :: "string \<Rightarrow> bytes \<Rightarrow> ProcessorResponse option \<times> error option" where
  "failing ident b = (None, Some (New ''moving to failed item''))"

section \<open>The watcher\<close>

text \<open>The item queue \<open>itemQ\<close> is a buffered channel: the items it holds, its capacity,
  and whether it has been closed.\<close>

record chan =
  buf :: "Item list"
  cap :: nat
  closed :: bool

text \<open>\<open>time.Duration\<close> is an \<open>int64\<close> of nanoseconds. A channel that has not been made
  is \<open>None\<close>.\<close>

record Watcher =
  OwnerID :: string
  BatchSize :: go_int
  PollInterval :: go_int
  ManualCheckpoint :: bool
  AutoClose :: bool
  LeaseInterval :: go_int
  LeaseDuration :: go_int
  itemQ :: "chan option"
  leases :: "string \<rightharpoonup> Partition"

definition DefaultPollInterval :: go_int where
  "DefaultPollInterval = 1000000000"

definition MinLeaseDuration :: go_int where
  "MinLeaseDuration = 1000000000 * 30"

text \<open>\<open>make(chan *Item, n)\<close> panics on a negative size.\<close>

definition make_chan :: "go_int \<Rightarrow> chan option" where
  "make_chan n = (if sint n < 0 then None
                  else Some \<lparr>buf = [], cap = nat (sint n), closed = False\<rparr>)"

text \<open>
  \<open>Watcher.Start\<close> up to its call of \<open>watch\<close>: the defaults, the empty lease map and
  the item queue. The package variable \<open>OverrideMinLeaseDuration\<close> and the fresh UUID
  are parameters.
\<close>

definition Start :: "bool \<Rightarrow> string \<Rightarrow> Watcher \<Rightarrow> Watcher outcome" where
  "Start OverrideMinLeaseDuration uuid w =
     (let w1 = (if PollInterval w = 0 then w\<lparr>PollInterval := DefaultPollInterval\<rparr> else w);
          w2 = (if BatchSize w1 = 0 then w1\<lparr>BatchSize := 10\<rparr> else w1);
          w3 = (if OwnerID w2 = [] then w2\<lparr>OwnerID := uuid\<rparr> else w2);
          w4 = w3\<lparr>leases := Map.empty\<rparr>;
          w5 = (if LeaseInterval w4 = 0 then w4\<lparr>LeaseInterval := 2 * PollInterval w4\<rparr> else w4);
          w6 = (if LeaseDuration w5 = 0 then w5\<lparr>LeaseDuration := 2 * LeaseInterval w5\<rparr> else w5);
          w7 = (if sint (LeaseDuration w6) < sint MinLeaseDuration \<and> \<not> OverrideMinLeaseDuration
                then w6\<lparr>LeaseDuration := MinLeaseDuration\<rparr> else w6)
      in case make_chan (BatchSize w7) of
           None \<Rightarrow> Panics w7
         | Some c \<Rightarrow> Returns (w7\<lparr>itemQ := Some c\<rparr>))"

text \<open>
  The tasks that \<open>watch\<close> starts run interleaved; each of their actions on the shared
  fields of the watcher is one step. A partition watcher sends a fetched item
  (\<open>w.itemQ <- i\<close>): the send of a buffered channel goes ahead only while the buffer
  holds fewer items than its capacity, and blocks otherwise. A dispatcher receives the
  item at the head (\<open>range w.itemQ\<close>). \<open>acquireLeases\<close> closes the queue at shutdown,
  and it and the partition watchers update the lease map.
\<close>

inductive step :: "Watcher \<Rightarrow> Watcher \<Rightarrow> bool" where
  send: "itemQ w = Some c \<Longrightarrow> \<not> closed c \<Longrightarrow> length (buf c) < cap c \<Longrightarrow>
         step w (w\<lparr>itemQ := Some (c\<lparr>buf := buf c @ [i]\<rparr>)\<rparr>)"
| recv: "itemQ w = Some c \<Longrightarrow> buf c = i # rest \<Longrightarrow>
         step w (w\<lparr>itemQ := Some (c\<lparr>buf := rest\<rparr>)\<rparr>)"
| close: "itemQ w = Some c \<Longrightarrow> step w (w\<lparr>itemQ := Some (c\<lparr>closed := True\<rparr>)\<rparr>)"
| lease: "step w (w\<lparr>leases := l\<rparr>)"

subsection \<open>Lease acquisition\<close>

text \<open>
  \<open>GormRepo.GetPotentialLeases\<close>: the query
  \<open>Where("status != ? AND until < ?", Complete, time.Now()).Find(&partitions)\<close> over the
  rows of the partitions table; a failing database gives the error and no rows.
\<close>

definition GetPotentialLeases :: "error option \<Rightarrow> time \<Rightarrow> Partition list \<Rightarrow> Partition list \<times> error option" where
  "GetPotentialLeases fault now rows =
     (case fault of
        Some err \<Rightarrow> ([], Some err)
      | None \<Rightarrow> (filter (\<lambda>p. Status p \<noteq> Complete \<and> Until p < now) rows, None))"

text \<open>
  The loop of \<open>acquireLeases\<close> over the partitions returned: a partition whose
  identifier is in the lease map is skipped with a warning; any other is entered in the
  map and gets a partition watcher. The result is the map and the partitions for which
  a watcher was started.
\<close>

fun lease_each :: "Partition list \<Rightarrow> (string \<rightharpoonup> Partition) \<Rightarrow> (string \<rightharpoonup> Partition) \<times> Partition list" where
  "lease_each [] l = (l, [])"
| "lease_each (p # ps) l =
     (if l (ID p) \<noteq> None then lease_each ps l
      else (let r = lease_each ps (l(ID p \<mapsto> p)) in (fst r, p # snd r)))"

text \<open>One round of \<open>acquireLeases\<close>: an error of the query is logged, and the loop runs
  over what was returned.\<close>

definition acquireLeases :: "error option \<Rightarrow> time \<Rightarrow> Partition list \<Rightarrow> Watcher \<Rightarrow> Watcher \<times> Partition list" where
  "acquireLeases fault now rows w =
     (let r = lease_each (fst (GetPotentialLeases fault now rows)) (leases w)
      in (w\<lparr>leases := fst r\<rparr>, snd r))"

subsection \<open>The partition watcher\<close>

text \<open>Modelled from the spec: \<open>Partition.InActive\<close> is called by \<open>watchPartition\<close> but
  not defined in the sources at hand. The specification gives its meaning: the
  partition is no longer active, that is, its status is not \<open>Available\<close> or its lease
  has expired.\<close>

definition InActive :: "time \<Rightarrow> Partition \<Rightarrow> bool" where
  "InActive now p = (Status p \<noteq> Available \<or> Expired now p)"

text \<open>Indexing the map returned by \<open>GetCountByStatus\<close>: a missing key reads as 0.\<close>

definition count_of :: "(Status \<rightharpoonup> go_int) \<Rightarrow> Status \<Rightarrow> go_int" where
  "count_of counts s = (case counts s of None \<Rightarrow> 0 | Some n \<Rightarrow> n)"

text \<open>Which case of the \<open>select\<close> at the end of an iteration fires: the ticker, or
  \<open>ctx.Done()\<close>.\<close>

datatype event = Tick | Done

text \<open>What one iteration of \<open>watchPartition\<close> receives from outside: the results of
  \<open>GetAvailableItems\<close> and \<open>GetCountByStatus\<close>, the clock when \<open>Until\<close> is stamped and
  when \<open>Expired\<close> reads it after the save, and the event of the \<open>select\<close>.\<close>

record tick =
  fetched :: "Item list \<times> error option"
  counted :: "(Status \<rightharpoonup> go_int) \<times> error option"
  stamp_now :: time
  check_now :: time
  fired :: event

text \<open>The state of a partition watcher: the watcher (for its shared lease map), the
  partitions table, the partition \<open>p\<close> in memory, and the items sent to the queue.\<close>

record watching =
  watcher :: Watcher
  store :: "unit Partition_ext table"
  part :: Partition
  sent :: "Item list"

datatype flow = Continue | Return

text \<open>The chain on the counts and the fetched items in \<open>watchPartition\<close>.\<close>

definition new_state :: "Watcher \<Rightarrow> Item list \<Rightarrow> (Status \<rightharpoonup> go_int) \<Rightarrow> Partition \<Rightarrow> Partition" where
  "new_state w items counts p =
     (if 0 < sint (count_of counts Failed) then p\<lparr>Status := Failed\<rparr>
      else if 0 < sint (count_of counts Available)
      then (let p1 = p\<lparr>Status := Available\<rparr>
            in if length items = 0 \<and> \<not> ManualCheckpoint w then p1\<lparr>Gate := Gate p1 + 1\<rparr> else p1)
      else if length items = 0 \<and> AutoClose w then p\<lparr>Status := Complete\<rparr> else p)"

text \<open>One iteration of the loop of \<open>watchPartition\<close>.\<close>

definition watchPartition_iter :: "unit Partition_ext orm \<Rightarrow> tick \<Rightarrow> watching \<Rightarrow> watching \<times> flow" where
  "watchPartition_iter orm t s =
     (case fetched t of
        (items, Some err) \<Rightarrow> (s, Return)
      | (items, None) \<Rightarrow>
     (case counted t of
        (counts, Some err) \<Rightarrow> (s, Return)
      | (counts, None) \<Rightarrow>
          (let w = watcher s;
               p1 = new_state w items counts (part s);
               p2 = p1\<lparr>Owner := OwnerID w, Until := stamp_now t + sint (LeaseDuration w)\<rparr>
           in case Save orm (store s) p2 of
                (db, p3, ok) \<Rightarrow>
                  if \<not> ok then (s\<lparr>store := db, part := p3\<rparr>, Return)
                  else if InActive (check_now t) p3 then (s\<lparr>store := db, part := p3\<rparr>, Return)
                  else (s\<lparr>store := db, part := p3, sent := sent s @ items\<rparr>,
                        case fired t of Tick \<Rightarrow> Continue | Done \<Rightarrow> Return))))"

text \<open>The deferred function of \<open>watchPartition\<close>: the partition leaves the lease map.\<close>

definition release :: "watching \<Rightarrow> watching" where
  "release s = s\<lparr>watcher := (watcher s)\<lparr>leases := (leases (watcher s))(ID (part s) := None)\<rparr>\<rparr>"

text \<open>\<open>watchPartition\<close> over the iterations for which the outside is given: it has
  returned (the deferred function has run), or it is still in its loop.\<close>

fun watchPartition :: "unit Partition_ext orm \<Rightarrow> tick list \<Rightarrow> watching \<Rightarrow> watching \<times> flow" where
  "watchPartition orm [] s = (s, Continue)"
| "watchPartition orm (t # ts) s =
     (case watchPartition_iter orm t s of
        (s', Return) \<Rightarrow> (release s', Return)
      | (s', Continue) \<Rightarrow> watchPartition orm ts s')"

text \<open>The bound on the item queue, for a batch size \<open>n\<close>: the queue has been made
  with capacity \<open>n\<close> and holds no more items than its capacity.\<close>

definition queue_ok :: "go_int \<Rightarrow> Watcher \<Rightarrow> bool" where
  "queue_ok n w = (BatchSize w = n \<and>
     (case itemQ w of None \<Rightarrow> False
      | Some c \<Rightarrow> cap c = nat (sint n) \<and> length (buf c) \<le> cap c))"

subsection \<open>Concrete watchers, partitions and iterations\<close>

text \<open>A partition and a watcher as the repository's test sets them up; \<open>w1\<close> is \<open>w0\<close>
  after \<open>Start\<close>. One iteration of the partition watcher: one item fetched, one
  \<open>Available\<close> item counted, the ticker fires; \<open>saved0\<close> is the partition it saves.\<close>

definition part0 :: Partition where
  "part0 = \<lparr>ID = ''p1_gate'', Version = 0, CreatedAt = 0, UpdatedAt = 0, Gate = 0,
     Status = Available, Owner = ''p1'', Until = 0\<rparr>"

definition w0 :: Watcher where
  "w0 = \<lparr>OwnerID = ''p1'', BatchSize = 1, PollInterval = 1000000, ManualCheckpoint = False,
     AutoClose = True, LeaseInterval = 1000000000, LeaseDuration = 0, itemQ = None,
     leases = Map.empty\<rparr>"

definition w1 :: Watcher where
  "w1 = w0\<lparr>LeaseDuration := 30000000000,
          itemQ := Some \<lparr>buf = [], cap = 1, closed = False\<rparr>\<rparr>"

definition watching0 :: watching where
  "watching0 = \<lparr>watcher = w1\<lparr>leases := [''p1_gate'' \<mapsto> part0]\<rparr>,
     store = [''p1_gate'' \<mapsto> part0], part = part0, sent = []\<rparr>"

definition tick0 :: tick where
  "tick0 = \<lparr>fetched = ([fresh], None), counted = ([Available \<mapsto> 1], None),
     stamp_now = 100, check_now = 101, fired = Tick\<rparr>"

definition saved0 :: Partition where
  "saved0 = part0\<lparr>Version := 1, Until := 30000000100\<rparr>"

section \<open>The HTTP processor\<close>

text \<open>
  What the processor reads of an \<open>http.Response\<close>. A response that is not nil carries
  a body, as \<open>net/http\<close> guarantees for the responses of a client.
\<close>

record http_Response =
  http_Status :: string
  http_StatusCode :: go_int
  http_Body :: bytes

record processorError =
  Message :: string
  NoRetry :: bool

text \<open>The envelope \<open>response\<close>; \<open>'j\<close> is the type of decoded JSON objects
  (\<open>map[string]interface{}\<close>), and a nil map or pointer is \<open>None\<close>.\<close>

record 'j response =
  env_NextGate :: go_int
  env_Complete :: bool
  env_Data :: "'j option"
  env_Error :: "processorError option"

text \<open>
  The processor with what it calls from outside the repository: the two methods of its
  \<open>HTTPClient\<close>, the JSON decoder (which returns the envelope as far as it was filled,
  and its error), the JSON encoder, the empty JSON object, and \<open>path.Join\<close>.
\<close>

record 'j Processor =
  Target :: string
  HealthEndpoint :: string
  Post :: "string \<Rightarrow> string \<Rightarrow> bytes \<Rightarrow> http_Response option \<times> error option"
  Get :: "string \<Rightarrow> http_Response option \<times> error option"
  Decode :: "bytes \<Rightarrow> 'j response \<times> error option"
  Encode :: "'j \<Rightarrow> bytes \<times> error option"
  empty_object :: "'j"
  path_Join :: "string \<Rightarrow> string \<Rightarrow> string"

text \<open>\<open>response.GetData\<close>: a nil map is replaced by the empty one; the map is
  encoded.\<close>

definition GetData :: "'j Processor \<Rightarrow> 'j response \<Rightarrow> bytes \<times> error option" where
  "GetData h r =
     (let d = (case env_Data r of None \<Rightarrow> empty_object h | Some d \<Rightarrow> d)
      in case Encode h d of
           (b, Some err) \<Rightarrow> ([], Some err)
         | (b, None) \<Rightarrow> (b, None))"

definition procResponse :: "'j Processor \<Rightarrow> 'j response \<Rightarrow> ProcessorResponse option \<times> error option" where
  "procResponse h r =
     (case GetData h r of
        (data, Some err) \<Rightarrow>
          (None, Some (Errorf_w (''error marshaling data into bytes: '' @ Error err) err))
      | (data, None) \<Rightarrow>
          (Some \<lparr>pr_NextGate = env_NextGate r, pr_Complete = env_Complete r, pr_Data = data\<rparr>, None))"

text \<open>
  \<open>Processor.Process\<close>: post the payload; return the error of the client if there is
  one; decode the body (a nil response panics here); a decoder error is wrapped
  together with the HTTP status; an \<open>error\<close> in the envelope is returned as
  \<open>Status <s>; message: <m>\<close>, non-retryable if \<open>no_retry\<close> is set; a status code
  outside 200 to 299 is returned as the status string; otherwise the response is
  built.
\<close>

definition Process :: "'j Processor \<Rightarrow> bytes \<Rightarrow> (ProcessorResponse option \<times> error option) outcome" where
  "Process h b =
     (case Post h (Target h) ''application/json'' b of
        (r, Some err) \<Rightarrow> Returns (None, Some err)
      | (None, None) \<Rightarrow> Panics (None, None)
      | (Some resp, None) \<Rightarrow>
          (case Decode h (http_Body resp) of
             (respObj, Some err) \<Rightarrow>
               Returns (None, Some (Errorf_w
                 (''marshal error: '' @ Error err @ '', from request with HTTP Status: ''
                    @ http_Status resp) err))
           | (respObj, None) \<Rightarrow>
               (case env_Error respObj of
                  Some pe \<Rightarrow>
                    (let err = New (''Status '' @ http_Status resp @ ''; message: '' @ Message pe)
                     in Returns (None, Some (if NoRetry pe then NonRetryableError (Error err)
                                             else err)))
                | None \<Rightarrow>
                    if sint (http_StatusCode resp) < 200 \<or> 300 \<le> sint (http_StatusCode resp)
                    then Returns (None, Some (New (http_Status resp)))
                    else Returns (procResponse h respObj))))"

text \<open>
  \<open>Processor.Healthcheck\<close>: nil without a health endpoint; otherwise the GET, the
  close of the body of the response (a panic when the response is nil), and the
  error of the GET returned.
\<close>

definition Healthcheck :: "'j Processor \<Rightarrow> error option outcome" where
  "Healthcheck h =
     (if HealthEndpoint h = [] then Returns None
      else (case Get h (path_Join h (Target h) (HealthEndpoint h)) of
              (None, err) \<Rightarrow> Panics err
            | (Some resp, err) \<Rightarrow> Returns err))"

text \<open>The mock client of the repository's test, on which \<open>Post\<close> answers with a given
  code and body and \<open>Get\<close> returns nil and nil; a decoder for the bodies used here; and
  a client whose \<open>Get\<close> fails as \<open>http.Client\<close> does, with a nil response and an
  error. In \<open>marked\<close> the decoder returns an error that carries the non-retryable
  mark, as it does when the reader of the body fails with one.\<close>

definition mock_decode :: "bytes \<Rightarrow> unit response \<times> error option" where
  "mock_decode b =
     (if b = [] then (\<lparr>env_NextGate = 0, env_Complete = False, env_Data = None, env_Error = None\<rparr>,
                      Some (New ''EOF''))
      else if b = [1] then
        (\<lparr>env_NextGate = 0, env_Complete = False, env_Data = None,
          env_Error = Some \<lparr>Message = ''additional error context'', NoRetry = True\<rparr>\<rparr>, None)
      else if b = [2] then
        (\<lparr>env_NextGate = 0, env_Complete = False, env_Data = None,
          env_Error = Some \<lparr>Message = ''x'', NoRetry = False\<rparr>\<rparr>, None)
      else (\<lparr>env_NextGate = 0, env_Complete = False, env_Data = None, env_Error = None\<rparr>, None))"

definition mock :: "go_int \<Rightarrow> string \<Rightarrow> bytes \<Rightarrow> unit Processor" where
  "mock code status body =
     \<lparr>Target = ''http://target'', HealthEndpoint = ''/health'',
      Post = (\<lambda>url contentType b.
                (Some \<lparr>http_Status = status, http_StatusCode = code, http_Body = body\<rparr>, None)),
      Get = (\<lambda>url. (None, None)),
      Decode = mock_decode,
      Encode = (\<lambda>d. ([123, 125, 10], None)),
      empty_object = (),
      path_Join = (\<lambda>a b. a @ b)\<rparr>"

definition marked :: "unit Processor" where
  "marked = (mock 200 ''HTTP 200'' [])\<lparr>Decode := (\<lambda>b.
     (\<lparr>env_NextGate = 0, env_Complete = False, env_Data = None, env_Error = None\<rparr>,
      Some (NonRetryableError ''read failed'')))\<rparr>"

definition unreachable :: "unit Processor" where
  "unreachable = (mock 200 ''HTTP 200'' [])\<lparr>Get := (\<lambda>url. (None, Some (New ''connection refused'')))\<rparr>"

section \<open>Verified properties\<close>

subsection \<open>Save\<close>

lemma Save_result:
  "Save orm db m =
     (snd (orm db (Version m) (IncrementVersion m)),
      (if fst (orm db (Version m) (IncrementVersion m)) = None then IncrementVersion m else m),
      fst (orm db (Version m) (IncrementVersion m)) = None)"
  by (simp add: Save_def GetVersion_def IncrementVersion_def DecrementVersion_def
      Let_def split: prod.splits)

text \<open>
  C1, as amended. \<open>Save\<close> returns true exactly when the save of the mapper reports no
  error; the in-memory version is then the version before the call plus one, and after
  a false return it is the version before the call. With the save of the library
  (update under the version predicate, else insert) the return is true when the stored
  row of the model's identifier carries the model's version, and also when no row of
  that identifier is stored, the model then being inserted; in both cases the stored
  row is the model at the version before the call plus one. It is false when a row with
  another version is stored (a stale write), and the table is then unchanged.
\<close>

theorem Save_versions:
  assumes call: "orm db (Version m) (IncrementVersion m) = (err, db')"
    and res: "Save orm db m = (db2, m', ok)"
    and gres: "Save occ_update db m = (gdb, gm, gok)"
  shows "ok = (err = None) \<and> db2 = db' \<and>
         (ok \<longrightarrow> Version m' = Version m + 1) \<and>
         (\<not> ok \<longrightarrow> Version m' = Version m) \<and>
         gok = (\<forall>row. db (ID m) = Some row \<longrightarrow> Version row = Version m) \<and>
         (gok \<longrightarrow> Version gm = Version m + 1 \<and> gdb (ID m) = Some gm) \<and>
         (\<not> gok \<longrightarrow> gdb = db \<and> Version gm = Version m)"
proof -
  from res call have db2: "db2 = db'" and ok: "ok = (err = None)"
    and m': "m' = (if err = None then IncrementVersion m else m)"
    by (auto simp add: Save_result)
  have mem: "ok \<longrightarrow> Version m' = Version m + 1"
    using ok m' by (simp add: IncrementVersion_def)
  have rollback: "\<not> ok \<longrightarrow> Version m' = Version m"
    using ok m' by (cases err) simp_all
  have lib: "gok = (\<forall>row. db (ID m) = Some row \<longrightarrow> Version row = Version m) \<and>
         (gok \<longrightarrow> Version gm = Version m + 1 \<and> gdb (ID m) = Some gm) \<and>
         (\<not> gok \<longrightarrow> gdb = db \<and> Version gm = Version m)"
  proof (cases "db (ID m)")
    case None
    with gres show ?thesis
      by (auto simp add: Save_result occ_update_def IncrementVersion_def)
  next
    case (Some row)
    with gres show ?thesis
      by (cases "Version row = Version m")
         (auto simp add: Save_result occ_update_def IncrementVersion_def)
  qed
  from ok db2 mem rollback lib show ?thesis by blast
qed

text \<open>
  The theorem at concrete calls: with the save of the library, the row stored at
  version 3 saved from a model at version 3 (success, both versions become 4) and from
  the stale model at version 2 (refused, the model keeps version 2); and with a failing
  database (the model keeps version 3).
\<close>

theorem Save_versions_witness:
  "Save occ_update [''p1'' \<mapsto> row3] row3
     = ([''p1'' \<mapsto> row3\<lparr>Version := 4\<rparr>], row3\<lparr>Version := 4\<rparr>, True) \<and>
   Save occ_update [''p1'' \<mapsto> row3] stale2 = ([''p1'' \<mapsto> row3], stale2, False) \<and>
   Save db_down [''p1'' \<mapsto> row3] row3 = ([''p1'' \<mapsto> row3], row3, False) \<and>
   Version (fst (snd (Save occ_update [''p1'' \<mapsto> row3] row3))) = Version row3 + 1 \<and>
   Version (fst (snd (Save occ_update [''p1'' \<mapsto> row3] stale2))) = Version stale2 \<and>
   Version (fst (snd (Save db_down [''p1'' \<mapsto> row3] row3))) = Version row3"
proof -
  have c1: "occ_update [''p1'' \<mapsto> row3] (Version row3) (IncrementVersion row3)
              = (None, [''p1'' \<mapsto> row3\<lparr>Version := 4\<rparr>])"
    by (simp add: occ_update_def row3_def IncrementVersion_def)
  have r1: "Save occ_update [''p1'' \<mapsto> row3] row3
              = ([''p1'' \<mapsto> row3\<lparr>Version := 4\<rparr>], row3\<lparr>Version := 4\<rparr>, True)"
    by (simp add: Save_result occ_update_def row3_def IncrementVersion_def)
  have c2: "occ_update [''p1'' \<mapsto> row3] (Version stale2) (IncrementVersion stale2)
              = (Some (New ''UNIQUE constraint failed''), [''p1'' \<mapsto> row3])"
    by (simp add: occ_update_def row3_def stale2_def IncrementVersion_def)
  have r2: "Save occ_update [''p1'' \<mapsto> row3] stale2 = ([''p1'' \<mapsto> row3], stale2, False)"
    by (simp add: Save_result occ_update_def row3_def stale2_def IncrementVersion_def)
  have c3: "db_down [''p1'' \<mapsto> row3] (Version row3) (IncrementVersion row3)
              = (Some (New ''database is locked''), [''p1'' \<mapsto> row3])"
    by (simp add: db_down_def)
  have r3: "Save db_down [''p1'' \<mapsto> row3] row3 = ([''p1'' \<mapsto> row3], row3, False)"
    by (simp add: Save_result db_down_def)
  have v1: "Version (row3\<lparr>Version := 4\<rparr>) = Version row3 + 1"
    using Save_versions [OF c1 r1 r1] by blast
  have v2: "Version stale2 = Version stale2"
    using Save_versions [OF c2 r2 r2] by blast
  have v3: "Version row3 = Version row3"
    using Save_versions [OF c3 r3 r1] by blast
  show ?thesis
    unfolding r1 r2 r3 fst_conv snd_conv using v1 v2 v3 by blast
qed

text \<open>
  The claim as stated fails: saved into a table with no row of its identifier, the
  model is inserted and \<open>Save\<close> returns true, although no stored row carried the
  model's version.
\<close>

theorem Save_insert_counterexample:
  "Save occ_update Map.empty row3
     = ([''p1'' \<mapsto> row3\<lparr>Version := 4\<rparr>], row3\<lparr>Version := 4\<rparr>, True) \<and>
   \<not> (\<exists>row :: BaseModel. Map.empty (ID row3) = Some row \<and> Version row = Version row3)"
  by (simp add: Save_result occ_update_def row3_def IncrementVersion_def)

subsection \<open>Item error accumulation and the dispatcher\<close>

lemma Item_error_RetryCount: "RetryCount (Item_error M e i) = RetryCount i + 1"
  by (simp add: Item_error_def Let_def)

lemma Item_error_ItemStatus:
  "ItemStatus (Item_error M e i) =
     (if \<not> IsRetryable e \<or> (sint M < sint (RetryCount i + 1) \<and> 0 \<le> sint M)
      then Failed else ItemStatus i)"
  by (simp add: Item_error_def Let_def)

lemma Item_error_ErrorMessages:
  "ErrorMessages (Item_error M e i) =
     (if ErrorMessages i = [] then Error e
      else if ErrorMessages i \<noteq> Error e then ErrorMessages i @ [CHR 0x0A] @ Error e
      else ErrorMessages i)"
  by (simp add: Item_error_def Let_def)

lemma sint_succ:
  fixes a :: go_int
  assumes "sint a < 2 ^ 63 - 1"
  shows "sint (a + 1) = sint a + 1"
proof -
  have lo: "- (2 ^ 63) \<le> sint a" using sint_ge [of a] by simp
  have "sint (a + 1) = signed_take_bit 63 (sint a + 1)"
    by (simp add: sint_word_add)
  also have "\<dots> = sint a + 1"
    using lo assms by (intro signed_take_bit_int_eq_self) simp_all
  finally show ?thesis .
qed

lemma failures_snoc:
  "failures M (es @ [e]) i = Item_error M e (failures M es i)"
  by (induction es arbitrary: i) simp_all

lemma failures_RetryCount:
  "0 \<le> sint (RetryCount i) \<Longrightarrow> sint (RetryCount i) + int (length es) < 2 ^ 63 \<Longrightarrow>
   sint (RetryCount (failures M es i)) = sint (RetryCount i) + int (length es)"
proof (induction es arbitrary: i)
  case Nil
  then show ?case by simp
next
  case (Cons e es)
  have step: "sint (RetryCount (Item_error M e i)) = sint (RetryCount i) + 1"
    using Cons.prems by (simp add: Item_error_RetryCount sint_succ)
  have "sint (RetryCount (failures M es (Item_error M e i)))
          = sint (RetryCount (Item_error M e i)) + int (length es)"
    using Cons.prems step by (intro Cons.IH) simp_all
  then show ?case using step by simp
qed

lemma failures_exhaust:
  assumes M: "0 \<le> sint M" and rc: "0 \<le> sint (RetryCount i)"
    and range: "sint (RetryCount i) + sint M + 1 < 2 ^ 63"
    and len: "int (length es) = sint M + 1"
  shows "ItemStatus (failures M es i) = Failed"
proof -
  from len M have "es \<noteq> []" by auto
  then obtain es' e where es: "es = es' @ [e]"
    by (metis rev_exhaust)
  let ?j = "failures M es' i"
  have l': "int (length es') = sint M" using len es by simp
  have cnt: "sint (RetryCount ?j) = sint (RetryCount i) + sint M"
    using failures_RetryCount [of i es' M] rc range l' by simp
  have "sint (RetryCount ?j + 1) = sint (RetryCount ?j) + 1"
    using cnt range by (intro sint_succ) simp
  then have "sint M < sint (RetryCount ?j + 1)" using cnt rc by simp
  then show ?thesis
    using M by (simp add: es failures_snoc Item_error_ItemStatus)
qed

lemma failures_unlimited:
  "sint M < 0 \<Longrightarrow> \<forall>e \<in> set es. IsRetryable e \<Longrightarrow>
   ItemStatus (failures M es i) = ItemStatus i"
  by (induction es arbitrary: i) (simp_all add: Item_error_ItemStatus)


text \<open>
  C3, as amended. \<open>Item.error\<close> leaves the status \<open>Failed\<close> exactly when the error is
  not retryable, or the incremented retry count exceeds \<open>MaxRetries\<close> and \<open>MaxRetries\<close>
  is not negative; otherwise the status is the one before. So one non-retryable failure
  gives \<open>Failed\<close> whatever the retry count; \<open>MaxRetries + 1\<close> consecutive failures
  (\<open>MaxRetries\<close> not negative) of an item whose retry count is not negative and stays
  within the 64-bit range give \<open>Failed\<close>; and with \<open>MaxRetries = -1\<close> retryable failures
  never change the status.
\<close>

theorem Item_error_status:
  "ItemStatus (Item_error M e i) =
     (if \<not> IsRetryable e \<or> (sint M < sint (RetryCount i + 1) \<and> 0 \<le> sint M)
      then Failed else ItemStatus i) \<and>
   (\<not> IsRetryable e \<longrightarrow> ItemStatus (Item_error M e i) = Failed) \<and>
   (0 \<le> sint M \<and> 0 \<le> sint (RetryCount i) \<and> sint (RetryCount i) + sint M + 1 < 2 ^ 63 \<and>
    int (length es) = sint M + 1 \<longrightarrow> ItemStatus (failures M es i) = Failed) \<and>
   ((\<forall>e \<in> set es. IsRetryable e) \<longrightarrow> ItemStatus (failures (- 1) es i) = ItemStatus i)"
proof -
  have a: "ItemStatus (Item_error M e i) =
     (if \<not> IsRetryable e \<or> (sint M < sint (RetryCount i + 1) \<and> 0 \<le> sint M)
      then Failed else ItemStatus i)"
    by (rule Item_error_ItemStatus)
  have b: "\<not> IsRetryable e \<longrightarrow> ItemStatus (Item_error M e i) = Failed"
    by (simp add: Item_error_ItemStatus)
  have c: "0 \<le> sint M \<and> 0 \<le> sint (RetryCount i) \<and> sint (RetryCount i) + sint M + 1 < 2 ^ 63 \<and>
    int (length es) = sint M + 1 \<longrightarrow> ItemStatus (failures M es i) = Failed"
    using failures_exhaust [of M i es] by blast
  have d: "(\<forall>e \<in> set es. IsRetryable e) \<longrightarrow> ItemStatus (failures (- 1) es i) = ItemStatus i"
    using failures_unlimited [of "- 1" es i] by simp
  from a b c d show ?thesis by blast
qed

text \<open>The run of the repository's test of \<open>error\<close>: \<open>MaxRetries = 3\<close>, three
  retryable failures leave the item \<open>Available\<close>, the fourth fails it; a non-retryable
  error fails a fresh item at once; with \<open>MaxRetries = -1\<close> the item stays
  \<open>Available\<close>.\<close>

theorem Item_error_status_witness:
  "ItemStatus (failures 3 [New ''test error'', New ''test error'', New ''test error 2''] fresh) = Available \<and>
   ItemStatus (failures 3 [New ''test error'', New ''test error'', New ''test error 2'', New ''last err''] fresh) = Failed \<and>
   ItemStatus (Item_error 3 (NonRetryableError ''test error'') fresh) = Failed \<and>
   ItemStatus (failures (- 1) [New ''a'', New ''b'', New ''c''] fresh) = Available"
proof -
  have h: "0 \<le> sint (3 :: go_int) \<and> 0 \<le> sint (RetryCount fresh) \<and>
      sint (RetryCount fresh) + sint (3 :: go_int) + 1 < 2 ^ 63 \<and>
      int (length [New ''test error'', New ''test error'', New ''test error 2'', New ''last err'']) = sint (3 :: go_int) + 1"
    by (simp add: fresh_def)
  have r: "\<forall>e \<in> set [New ''a'', New ''b'', New ''c'']. IsRetryable e" by simp
  have n: "\<not> IsRetryable (NonRetryableError ''test error'')" by simp
  have three: "ItemStatus (failures 3 [New ''test error'', New ''test error'', New ''test error 2''] fresh) = Available"
    by (simp add: Item_error_def fresh_def)
  from Item_error_status [of 3 "NonRetryableError ''test error''" fresh
      "[New ''test error'', New ''test error'', New ''test error 2'', New ''last err'']"] h n
  have p1: "ItemStatus (failures 3 [New ''test error'', New ''test error'', New ''test error 2'', New ''last err''] fresh) = Failed"
    and p2: "ItemStatus (Item_error 3 (NonRetryableError ''test error'') fresh) = Failed"
    by blast+
  from Item_error_status [of 3 "New ''a''" fresh "[New ''a'', New ''b'', New ''c'']"] r
  have p3: "ItemStatus (failures (- 1) [New ''a'', New ''b'', New ''c''] fresh) = Available"
    by (simp add: fresh_def)
  from three p1 p2 p3 show ?thesis by simp
qed

text \<open>
  The claim as stated fails for items outside that range: with \<open>MaxRetries = 0\<close> one
  retryable failure of an item whose retry count is the largest 64-bit integer wraps
  the count to the smallest and leaves the item \<open>Available\<close>; and with
  \<open>MaxRetries = 3\<close> four retryable failures of an item whose retry count is -5 leave
  it \<open>Available\<close>.
\<close>

theorem Item_error_overflow_counterexample:
  "ItemStatus (failures 0 [New ''e''] (fresh\<lparr>RetryCount := 9223372036854775807\<rparr>)) = Available \<and>
   sint (RetryCount (failures 0 [New ''e''] (fresh\<lparr>RetryCount := 9223372036854775807\<rparr>)))
     = - 9223372036854775808 \<and>
   ItemStatus (failures 3 [New ''e'', New ''e'', New ''e'', New ''e''] (fresh\<lparr>RetryCount := - 5\<rparr>))
     = Available \<and>
   IsRetryable (New ''e'')"
  by (simp add: Item_error_def fresh_def)

text \<open>
  C4, as amended. \<open>Item.error\<close> increments the retry count by one. If
  \<open>ErrorMessages\<close> is empty it becomes the message of the error; otherwise, if the
  whole accumulated string differs from the message, a newline and the message are
  appended; otherwise it is unchanged. So the string stays as it is exactly when it
  equals the message: a repeated message is left out only while the string consists of
  that one message.
\<close>

theorem Item_error_messages:
  "RetryCount (Item_error M e i) = RetryCount i + 1 \<and>
   ErrorMessages (Item_error M e i) =
     (if ErrorMessages i = [] then Error e
      else if ErrorMessages i \<noteq> Error e then ErrorMessages i @ [CHR 0x0A] @ Error e
      else ErrorMessages i) \<and>
   ((ErrorMessages (Item_error M e i) = ErrorMessages i) = (ErrorMessages i = Error e))"
  by (auto simp add: Item_error_RetryCount Item_error_ErrorMessages)

text \<open>The amended rule at the test's second and third failure: the repeated message is
  left out while it is the whole string, and a different one is appended.\<close>

theorem Item_error_messages_witness:
  "ErrorMessages (Item_error 3 (New ''test error'') (Item_error 3 (New ''test error'') fresh))
     = ''test error'' \<and>
   RetryCount (Item_error 3 (New ''test error'') (Item_error 3 (New ''test error'') fresh)) = 2 \<and>
   ErrorMessages (Item_error 3 (New ''test error 2'') (Item_error 3 (New ''test error'') fresh))
     = ''test error'' @ [CHR 0x0A] @ ''test error 2''"
proof -
  let ?i = "Item_error 3 (New ''test error'') fresh"
  have one: "ErrorMessages ?i = ''test error'' \<and> RetryCount ?i = 1"
    using Item_error_messages [of 3 "New ''test error''" fresh] by (simp add: fresh_def)
  from Item_error_messages [of 3 "New ''test error''" ?i]
       Item_error_messages [of 3 "New ''test error 2''" ?i] one
  show ?thesis by simp
qed

text \<open>
  The claim as stated fails: after the failures "a", "b" the message appended last is
  "b"; a third failure "b" is appended again by \<open>Item.error\<close>, where the rule that
  compares with the message appended last leaves the string unchanged.
\<close>

theorem Item_error_repeat_counterexample:
  "ErrorMessages (failures 5 [New ''a'', New ''b''] fresh) = ''a'' @ [CHR 0x0A] @ ''b'' \<and>
   foldl dedup_last ([], None) [''a'', ''b''] = (''a'' @ [CHR 0x0A] @ ''b'', Some ''b'') \<and>
   ErrorMessages (Item_error 5 (New ''b'') (failures 5 [New ''a'', New ''b''] fresh))
     = ''a'' @ [CHR 0x0A] @ ''b'' @ [CHR 0x0A] @ ''b'' \<and>
   ErrorMessages (Item_error 5 (New ''b'') (failures 5 [New ''a'', New ''b''] fresh))
     \<noteq> fst (dedup_last (foldl dedup_last ([], None) [''a'', ''b'']) ''b'')"
  by (simp add: Item_error_def fresh_def dedup_last_def)

text \<open>
  C9. When \<open>Process\<close> returns an error, \<open>processItem\<close> hands to the final save the item
  with only \<open>RetryCount\<close>, \<open>ErrorMessages\<close> and \<open>Status\<close> updated; \<open>Data\<close> and
  \<open>Gate\<close> are as before the dispatch, also after the save.
\<close>

theorem processItem_error_frame:
  assumes "process (ID i) (Data i) = (r, Some err)"
  shows "processItem process M orm db i = Returns (Save orm db (Item_error M err i)) \<and>
         Item_error M err i =
           i\<lparr>RetryCount := RetryCount i + 1,
             ErrorMessages := ErrorMessages (Item_error M err i),
             ItemStatus := ItemStatus (Item_error M err i)\<rparr> \<and>
         Data (fst (snd (Save orm db (Item_error M err i)))) = Data i \<and>
         ItemGate (fst (snd (Save orm db (Item_error M err i)))) = ItemGate i"
proof -
  have run: "processItem process M orm db i = Returns (Save orm db (Item_error M err i))"
    using assms by (simp add: processItem_def processItem_body_def)
  have upd: "Item_error M err i =
           i\<lparr>RetryCount := RetryCount i + 1,
             ErrorMessages := ErrorMessages (Item_error M err i),
             ItemStatus := ItemStatus (Item_error M err i)\<rparr>"
    by (simp add: Item_error_def Let_def)
  have frame: "Data (Item_error M err i) = Data i \<and> ItemGate (Item_error M err i) = ItemGate i"
    by (simp add: Item_error_def Let_def)
  have saved: "Data (fst (snd (Save orm db j))) = Data j \<and>
               ItemGate (fst (snd (Save orm db j))) = ItemGate j" for j :: Item
    by (simp add: Save_result IncrementVersion_def)
  from run upd frame saved [of "Item_error M err i"] show ?thesis by simp
qed


theorem processItem_error_frame_witness:
  "processItem failing 3 occ_update [''s1'' \<mapsto> fresh] (fresh\<lparr>ItemGate := 2, Data := [1, 2]\<rparr>)
     = Returns ([''s1'' \<mapsto> fresh\<lparr>Version := 1, RetryCount := 1, ItemGate := 2,
                    ErrorMessages := ''moving to failed item'', Data := [1, 2]\<rparr>],
                fresh\<lparr>Version := 1, RetryCount := 1, ItemGate := 2,
                    ErrorMessages := ''moving to failed item'', Data := [1, 2]\<rparr>, True) \<and>
   Data (fst (snd (Save occ_update [''s1'' \<mapsto> fresh]
                     (Item_error 3 (New ''moving to failed item'') (fresh\<lparr>ItemGate := 2, Data := [1, 2]\<rparr>)))))
     = [1, 2]"
proof -
  let ?i = "fresh\<lparr>ItemGate := 2, Data := [1, 2]\<rparr>"
  have call: "failing (ID ?i) (Data ?i) = (None, Some (New ''moving to failed item''))"
    by (simp add: failing_def)
  have val: "Save occ_update [''s1'' \<mapsto> fresh] (Item_error 3 (New ''moving to failed item'') ?i)
     = ([''s1'' \<mapsto> fresh\<lparr>Version := 1, RetryCount := 1, ItemGate := 2,
                    ErrorMessages := ''moving to failed item'', Data := [1, 2]\<rparr>],
        fresh\<lparr>Version := 1, RetryCount := 1, ItemGate := 2,
                    ErrorMessages := ''moving to failed item'', Data := [1, 2]\<rparr>, True)"
    by (simp add: Save_result occ_update_def Item_error_def IncrementVersion_def fresh_def)
  from processItem_error_frame [of failing ?i None "New ''moving to failed item''" 3 occ_update
      "[''s1'' \<mapsto> fresh]"] call val
  show ?thesis by simp
qed

subsection \<open>The partition watcher, lease acquisition and the item queue\<close>

lemma Save_fields:
  fixes p :: Partition
  assumes "Save orm db p = (db', p', ok)"
  shows "Status p' = Status p" "Gate p' = Gate p" "Owner p' = Owner p" "Until p' = Until p"
    "ID p' = ID p"
  using assms by (auto simp add: Save_result IncrementVersion_def split: if_splits)

lemma new_state_Status:
  "Status (new_state w items counts p) =
     (if 0 < sint (count_of counts Failed) then Failed
      else if 0 < sint (count_of counts Available) then Available
      else if items = [] \<and> AutoClose w then Complete
      else Status p)"
  by (simp add: new_state_def Let_def)

lemma new_state_Gate:
  "Gate (new_state w items counts p) =
     (if \<not> 0 < sint (count_of counts Failed) \<and> 0 < sint (count_of counts Available) \<and>
         items = [] \<and> \<not> ManualCheckpoint w
      then Gate p + 1 else Gate p)"
  by (simp add: new_state_def Let_def)

lemma new_state_ID: "ID (new_state w items counts p) = ID p"
  by (simp add: new_state_def Let_def)

lemma watchPartition_iter_eq:
  assumes f: "fetched t = (items, None)" and c: "counted t = (counts, None)"
    and sv: "Save orm (store s)
               ((new_state (watcher s) items counts (part s))
                  \<lparr>Owner := OwnerID (watcher s),
                   Until := stamp_now t + sint (LeaseDuration (watcher s))\<rparr>) = (db, p', ok)"
  shows "watchPartition_iter orm t s =
           (s\<lparr>store := db, part := p',
              sent := sent s @ (if ok \<and> \<not> InActive (check_now t) p' then items else [])\<rparr>,
            if \<not> ok \<or> InActive (check_now t) p' \<or> fired t = Done then Return else Continue)"
  using f c sv by (cases "fired t") (simp_all add: watchPartition_iter_def Let_def)

text \<open>
  C2. In an iteration of the partition watcher in which both queries succeed, the
  partition gets this state: with a positive \<open>Failed\<close> count the status \<open>Failed\<close>;
  otherwise with a positive \<open>Available\<close> count the status \<open>Available\<close>, and the gate
  goes up by one when in addition no item was fetched and \<open>ManualCheckpoint\<close> is false;
  otherwise the status \<open>Complete\<close> exactly when no item was fetched and \<open>AutoClose\<close> is
  true, and the status it had otherwise. In every other case the gate is unchanged.
\<close>

theorem watchPartition_new_state:
  assumes f: "fetched t = (items, None)" and c: "counted t = (counts, None)"
    and it: "watchPartition_iter orm t s = (s', fl)"
  shows "Status (part s') =
           (if 0 < sint (count_of counts Failed) then Failed
            else if 0 < sint (count_of counts Available) then Available
            else if items = [] \<and> AutoClose (watcher s) then Complete
            else Status (part s)) \<and>
         Gate (part s') =
           (if \<not> 0 < sint (count_of counts Failed) \<and> 0 < sint (count_of counts Available) \<and>
               items = [] \<and> \<not> ManualCheckpoint (watcher s)
            then Gate (part s) + 1 else Gate (part s))"
proof -
  let ?p2 = "(new_state (watcher s) items counts (part s))
                  \<lparr>Owner := OwnerID (watcher s),
                   Until := stamp_now t + sint (LeaseDuration (watcher s))\<rparr>"
  obtain db p' ok where sv: "Save orm (store s) ?p2 = (db, p', ok)"
    by (metis prod_cases3)
  from watchPartition_iter_eq [OF f c sv] it have "part s' = p'" by auto
  moreover from Save_fields [OF sv]
  have "Status p' = Status (new_state (watcher s) items counts (part s))"
    and "Gate p' = Gate (new_state (watcher s) items counts (part s))" by simp_all
  ultimately show ?thesis by (simp add: new_state_Status new_state_Gate)
qed

text \<open>The iteration \<open>tick0\<close> and three variants: an item fetched and one \<open>Available\<close>
  (status \<open>Available\<close>, gate kept); nothing fetched and one \<open>Available\<close> (gate 1);
  nothing fetched and only \<open>Complete\<close> items with \<open>AutoClose\<close> (status \<open>Complete\<close>); a
  \<open>Failed\<close> item counted (status \<open>Failed\<close>).\<close>

theorem watchPartition_new_state_witness:
  "Status (part (fst (watchPartition_iter occ_update tick0 watching0))) = Available \<and>
   Gate (part (fst (watchPartition_iter occ_update tick0 watching0))) = 0 \<and>
   Gate (part (fst (watchPartition_iter occ_update (tick0\<lparr>fetched := ([], None)\<rparr>) watching0))) = 1 \<and>
   Status (part (fst (watchPartition_iter occ_update
      (tick0\<lparr>fetched := ([], None), counted := ([Complete \<mapsto> 2], None)\<rparr>) watching0))) = Complete \<and>
   Status (part (fst (watchPartition_iter occ_update
      (tick0\<lparr>counted := ([Available \<mapsto> 1, Failed \<mapsto> 1], None)\<rparr>) watching0))) = Failed"
proof -
  have s: "\<And>t. watchPartition_iter occ_update t watching0
      = (fst (watchPartition_iter occ_update t watching0), snd (watchPartition_iter occ_update t watching0))"
    by simp
  have a: "fetched tick0 = ([fresh], None)" "counted tick0 = ([Available \<mapsto> 1], None)"
    by (simp_all add: tick0_def)
  have b: "fetched (tick0\<lparr>fetched := ([], None)\<rparr>) = ([], None)"
    "counted (tick0\<lparr>fetched := ([], None)\<rparr>) = ([Available \<mapsto> 1], None)"
    by (simp_all add: tick0_def)
  have c: "fetched (tick0\<lparr>fetched := ([], None), counted := ([Complete \<mapsto> 2], None)\<rparr>) = ([], None)"
    "counted (tick0\<lparr>fetched := ([], None), counted := ([Complete \<mapsto> 2], None)\<rparr>) = ([Complete \<mapsto> 2], None)"
    by (simp_all add: tick0_def)
  have d: "fetched (tick0\<lparr>counted := ([Available \<mapsto> 1, Failed \<mapsto> 1], None)\<rparr>) = ([fresh], None)"
    "counted (tick0\<lparr>counted := ([Available \<mapsto> 1, Failed \<mapsto> 1], None)\<rparr>) = ([Available \<mapsto> 1, Failed \<mapsto> 1], None)"
    by (simp_all add: tick0_def)
  from watchPartition_new_state [OF a s] watchPartition_new_state [OF b s]
       watchPartition_new_state [OF c s] watchPartition_new_state [OF d s]
  show ?thesis
    by (simp add: count_of_def watching0_def w1_def w0_def part0_def)
qed


lemma InActive_not_Active: "InActive now p = (\<not> Active now p)"
  by (auto simp add: InActive_def Active_def)

text \<open>
  C6, as amended. In an iteration in which both queries succeed, the watcher stamps
  owner and until on the partition and saves it. It returns without sending an item
  when the save returns false, or, after a successful save, when the partition is no
  longer active (its status is not \<open>Available\<close>, or until is earlier than now).
  Otherwise it sends the fetched items to the queue and waits: it goes on with the next
  iteration when the ticker fires, and returns when the context is done. Whenever it
  returns, the partition has left the lease map.
\<close>

theorem watchPartition_exit:
  assumes f: "fetched t = (items, None)" and c: "counted t = (counts, None)"
    and sv: "Save orm (store s)
               ((new_state (watcher s) items counts (part s))
                  \<lparr>Owner := OwnerID (watcher s),
                   Until := stamp_now t + sint (LeaseDuration (watcher s))\<rparr>) = (db, p', ok)"
  shows "watchPartition_iter orm t s =
           (s\<lparr>store := db, part := p',
              sent := sent s @ (if ok \<and> \<not> InActive (check_now t) p' then items else [])\<rparr>,
            if \<not> ok \<or> InActive (check_now t) p' \<or> fired t = Done then Return else Continue) \<and>
         Owner p' = OwnerID (watcher s) \<and>
         Until p' = stamp_now t + sint (LeaseDuration (watcher s)) \<and>
         InActive (check_now t) p' = (Status p' \<noteq> Available \<or> Until p' < check_now t) \<and>
         (\<not> ok \<or> InActive (check_now t) p' \<or> fired t = Done \<longrightarrow>
            snd (watchPartition orm (t # ts) s) = Return \<and>
            leases (watcher (fst (watchPartition orm (t # ts) s))) (ID (part s)) = None) \<and>
         (ok \<and> \<not> InActive (check_now t) p' \<and> fired t = Tick \<longrightarrow>
            watchPartition orm (t # ts) s
              = watchPartition orm ts (s\<lparr>store := db, part := p', sent := sent s @ items\<rparr>))"
proof -
  note it = watchPartition_iter_eq [OF f c sv]
  have stamp: "Owner p' = OwnerID (watcher s)"
    "Until p' = stamp_now t + sint (LeaseDuration (watcher s))"
    using Save_fields [OF sv] by simp_all
  have ident: "ID p' = ID (part s)"
    using Save_fields [OF sv] by (simp add: new_state_ID)
  have inact: "InActive (check_now t) p' = (Status p' \<noteq> Available \<or> Until p' < check_now t)"
    by (simp add: InActive_def Expired_def)
  have exits: "\<not> ok \<or> InActive (check_now t) p' \<or> fired t = Done \<longrightarrow>
            snd (watchPartition orm (t # ts) s) = Return \<and>
            leases (watcher (fst (watchPartition orm (t # ts) s))) (ID (part s)) = None"
    using it ident by (auto simp add: release_def)
  have goes: "ok \<and> \<not> InActive (check_now t) p' \<and> fired t = Tick \<longrightarrow>
            watchPartition orm (t # ts) s
              = watchPartition orm ts (s\<lparr>store := db, part := p', sent := sent s @ items\<rparr>)"
    using it by auto
  from it stamp inact exits goes show ?thesis by blast
qed

text \<open>The iteration \<open>tick0\<close>: the save succeeds and the lease runs until 30000000100, so
  the item is sent and the loop continues; with the clock read at 30000000101 after
  the save the lease has expired, and the watcher returns and leaves the lease map.\<close>

theorem watchPartition_exit_witness:
  "watchPartition_iter occ_update tick0 watching0
     = (watching0\<lparr>store := [''p1_gate'' \<mapsto> saved0], part := saved0, sent := [fresh]\<rparr>, Continue) \<and>
   watchPartition_iter occ_update (tick0\<lparr>check_now := 30000000101\<rparr>) watching0
     = (watching0\<lparr>store := [''p1_gate'' \<mapsto> saved0], part := saved0\<rparr>, Return) \<and>
   leases (watcher (fst (watchPartition occ_update [tick0\<lparr>check_now := 30000000101\<rparr>] watching0)))
     ''p1_gate'' = None"
proof -
  have sv: "Save occ_update (store watching0)
               ((new_state (watcher watching0) [fresh] [Available \<mapsto> 1] (part watching0))
                  \<lparr>Owner := OwnerID (watcher watching0),
                   Until := 100 + sint (LeaseDuration (watcher watching0))\<rparr>)
            = ([''p1_gate'' \<mapsto> saved0], saved0, True)"
    by (simp add: Save_result occ_update_def IncrementVersion_def new_state_def count_of_def
        watching0_def w1_def w0_def part0_def saved0_def)
  have f: "fetched tick0 = ([fresh], None)" and c: "counted tick0 = ([Available \<mapsto> 1], None)"
    and n: "stamp_now tick0 = 100"
    by (simp_all add: tick0_def)
  let ?late = "tick0\<lparr>check_now := 30000000101\<rparr>"
  have f': "fetched ?late = ([fresh], None)" and c': "counted ?late = ([Available \<mapsto> 1], None)"
    and n': "stamp_now ?late = 100"
    by (simp_all add: tick0_def)
  have k: "check_now tick0 = 101" "fired tick0 = Tick" "check_now ?late = 30000000101"
    "fired ?late = Tick" "sent watching0 = []" "ID (part watching0) = ''p1_gate''"
    by (simp_all add: tick0_def watching0_def part0_def)
  have act: "\<not> InActive 101 saved0" "InActive 30000000101 saved0"
    by (simp_all add: InActive_def Expired_def saved0_def part0_def)
  have one: "watchPartition_iter occ_update tick0 watching0
     = (watching0\<lparr>store := [''p1_gate'' \<mapsto> saved0], part := saved0, sent := [fresh]\<rparr>, Continue)"
    using watchPartition_exit [OF f c, of occ_update watching0, unfolded n, OF sv, of "[]"]
    by (simp add: k act)
  have two: "watchPartition_iter occ_update ?late watching0
     = (watching0\<lparr>store := [''p1_gate'' \<mapsto> saved0], part := saved0\<rparr>, Return) \<and>
   leases (watcher (fst (watchPartition occ_update [?late] watching0))) ''p1_gate'' = None"
    using watchPartition_exit [OF f' c', of occ_update watching0, unfolded n', OF sv, of "[]"]
    by (simp only: k act simp_thms if_True if_False append_Nil2) (simp add: k)
  show ?thesis by (rule conjI [OF one two])
qed

text \<open>
  The claim as stated fails: with the context done, the save returns true and the
  partition is active, yet the watcher returns (after sending the fetched item) instead
  of continuing to the next tick.
\<close>

theorem watchPartition_cancel_counterexample:
  "snd (watchPartition_iter occ_update (tick0\<lparr>fired := Done\<rparr>) watching0) = Return \<and>
   sent (fst (watchPartition_iter occ_update (tick0\<lparr>fired := Done\<rparr>) watching0)) = [fresh] \<and>
   Save occ_update (store watching0)
     ((new_state (watcher watching0) [fresh] [Available \<mapsto> 1] (part watching0))
        \<lparr>Owner := OwnerID (watcher watching0),
         Until := 100 + sint (LeaseDuration (watcher watching0))\<rparr>)
     = ([''p1_gate'' \<mapsto> saved0], saved0, True) \<and>
   \<not> InActive 101 saved0"
  by (simp add: watchPartition_iter_def Save_result occ_update_def IncrementVersion_def
      new_state_def count_of_def InActive_def Expired_def
      watching0_def w1_def w0_def part0_def saved0_def tick0_def)


lemma lease_each_started: "set (snd (lease_each ps l)) \<subseteq> set ps"
proof (induction ps arbitrary: l)
  case Nil
  then show ?case by simp
next
  case (Cons p ps)
  from Cons.IH [of l] Cons.IH [of "l(ID p \<mapsto> p)"] show ?case
    by (auto simp add: Let_def simp del: fun_upd_apply)
qed

text \<open>
  C5. \<open>GetPotentialLeases\<close> returns exactly the partitions whose status is not
  \<open>Complete\<close> and whose until is earlier than now (and none when the query fails). So a
  \<open>Complete\<close> partition is never returned, and \<open>acquireLeases\<close> never starts a partition
  watcher for one: every partition it leases is a row that is not \<open>Complete\<close> and whose
  lease has expired.
\<close>

theorem GetPotentialLeases_eligible:
  "fst (GetPotentialLeases None now rows)
     = filter (\<lambda>p. Status p \<noteq> Complete \<and> Until p < now) rows \<and>
   (p \<in> set (fst (GetPotentialLeases None now rows)))
     = (p \<in> set rows \<and> Status p \<noteq> Complete \<and> Until p < now) \<and>
   (\<forall>q \<in> set (fst (GetPotentialLeases fault now rows)).
      q \<in> set rows \<and> Status q \<noteq> Complete \<and> Until q < now) \<and>
   (\<forall>q \<in> set (snd (acquireLeases fault now rows w)).
      q \<in> set rows \<and> Status q \<noteq> Complete \<and> Until q < now)"
proof -
  have ret: "\<forall>q \<in> set (fst (GetPotentialLeases fault now rows)).
      q \<in> set rows \<and> Status q \<noteq> Complete \<and> Until q < now"
    by (cases fault) (simp_all add: GetPotentialLeases_def)
  have "set (snd (acquireLeases fault now rows w))
          \<subseteq> set (fst (GetPotentialLeases fault now rows))"
    using lease_each_started [of "fst (GetPotentialLeases fault now rows)" "leases w"]
    by (simp add: acquireLeases_def Let_def)
  with ret have started: "\<forall>q \<in> set (snd (acquireLeases fault now rows w)).
      q \<in> set rows \<and> Status q \<noteq> Complete \<and> Until q < now"
    by blast
  from ret started show ?thesis by (simp add: GetPotentialLeases_def)
qed

text \<open>Three rows at time 5: an expired \<open>Available\<close> partition, a \<open>Complete\<close> one, and one
  leased until 9. Only the first is returned and leased.\<close>

theorem GetPotentialLeases_eligible_witness:
  "fst (GetPotentialLeases None 5
          [part0, part0\<lparr>ID := ''p1_disabled'', Status := Complete\<rparr>,
           part0\<lparr>ID := ''p2_owned'', Until := 9\<rparr>]) = [part0] \<and>
   snd (acquireLeases None 5
          [part0, part0\<lparr>ID := ''p1_disabled'', Status := Complete\<rparr>,
           part0\<lparr>ID := ''p2_owned'', Until := 9\<rparr>] w1) = [part0] \<and>
   part0\<lparr>ID := ''p1_disabled'', Status := Complete\<rparr>
     \<notin> set (snd (acquireLeases None 5
          [part0, part0\<lparr>ID := ''p1_disabled'', Status := Complete\<rparr>,
           part0\<lparr>ID := ''p2_owned'', Until := 9\<rparr>] w1))"
proof -
  let ?rows = "[part0, part0\<lparr>ID := ''p1_disabled'', Status := Complete\<rparr>,
           part0\<lparr>ID := ''p2_owned'', Until := 9\<rparr>]"
  have q: "fst (GetPotentialLeases None 5 ?rows) = [part0]"
    using GetPotentialLeases_eligible [of 5 ?rows part0 None w1]
    by (simp add: part0_def)
  have a: "snd (acquireLeases None 5 ?rows w1) = [part0]"
    by (simp add: acquireLeases_def Let_def q w1_def w0_def)
  from q a show ?thesis by (simp add: part0_def)
qed

lemma step_queue_ok: "step w w' \<Longrightarrow> queue_ok n w \<Longrightarrow> queue_ok n w'"
  by (induction rule: step.induct) (auto simp add: queue_ok_def)

lemma steps_queue_ok: "step\<^sup>*\<^sup>* w w' \<Longrightarrow> queue_ok n w \<Longrightarrow> queue_ok n w'"
  by (induction rule: rtranclp_induct) (auto intro: step_queue_ok)

lemma Start_unfold:
  "\<exists>w7. BatchSize w7 = (if BatchSize w = 0 then 10 else BatchSize w) \<and>
     Start ovr uuid w = (case make_chan (BatchSize w7) of
           None \<Rightarrow> Panics w7
         | Some c \<Rightarrow> Returns (w7\<lparr>itemQ := Some c\<rparr>))"
  unfolding Start_def Let_def
  by (rule exI, rule conjI [OF _ refl]) simp

lemma Start_queue_ok:
  assumes "Start ovr uuid w = Returns w'"
  shows "queue_ok (if BatchSize w = 0 then 10 else BatchSize w) w' \<and>
         0 \<le> sint (BatchSize w')"
proof -
  from Start_unfold [of w ovr uuid] obtain w7
    where b: "BatchSize w7 = (if BatchSize w = 0 then 10 else BatchSize w)"
      and s: "Start ovr uuid w = (case make_chan (BatchSize w7) of
           None \<Rightarrow> Panics w7
         | Some c \<Rightarrow> Returns (w7\<lparr>itemQ := Some c\<rparr>))"
    by blast
  from s assms obtain c where c: "make_chan (BatchSize w7) = Some c" and w': "w' = w7\<lparr>itemQ := Some c\<rparr>"
    by (auto split: option.splits)
  from c have "0 \<le> sint (BatchSize w7)" and "c = \<lparr>buf = [], cap = nat (sint (BatchSize w7)), closed = False\<rparr>"
    by (auto simp add: make_chan_def split: if_splits)
  with w' b show ?thesis
    by (simp add: queue_ok_def)
qed

text \<open>
  C8. After \<open>Start\<close> has made the item queue with capacity \<open>BatchSize\<close> (10 when it was
  0), however the sends of the partition watchers, the receives of the dispatchers and
  the other steps interleave, the queue never holds more than \<open>BatchSize\<close> items.
\<close>

theorem itemQ_bounded:
  assumes st: "Start ovr uuid w = Returns w'" and run: "step\<^sup>*\<^sup>* w' w''"
  shows "BatchSize w' = (if BatchSize w = 0 then 10 else BatchSize w) \<and>
         BatchSize w'' = BatchSize w' \<and>
         (\<exists>c. itemQ w'' = Some c \<and> cap c = nat (sint (BatchSize w')) \<and>
              int (length (buf c)) \<le> sint (BatchSize w'))"
proof -
  let ?n = "if BatchSize w = 0 then 10 else BatchSize w"
  from Start_queue_ok [OF st] have ok: "queue_ok ?n w'" and pos: "0 \<le> sint (BatchSize w')"
    by simp_all
  from ok have n: "BatchSize w' = ?n" by (simp add: queue_ok_def)
  from steps_queue_ok [OF run ok] have ok'': "queue_ok ?n w''" .
  then obtain c where c: "itemQ w'' = Some c" "cap c = nat (sint ?n)" "length (buf c) \<le> cap c"
    and b: "BatchSize w'' = ?n"
    by (auto simp add: queue_ok_def split: option.splits)
  from c pos n have "int (length (buf c)) \<le> sint (BatchSize w')" by auto
  with c b n show ?thesis by auto
qed

text \<open>\<open>Start\<close> on the watcher \<open>w0\<close> (batch size 1) gives \<open>w1\<close>; after one send the queue
  holds one item.\<close>

theorem itemQ_bounded_witness:
  "Start False ''uuid'' w0 = Returns w1 \<and>
   step\<^sup>*\<^sup>* w1 (w1\<lparr>itemQ := Some \<lparr>buf = [fresh], cap = 1, closed = False\<rparr>\<rparr>) \<and>
   BatchSize w1 = 1 \<and>
   (\<exists>c. itemQ (w1\<lparr>itemQ := Some \<lparr>buf = [fresh], cap = 1, closed = False\<rparr>\<rparr>) = Some c \<and>
        cap c = 1 \<and> int (length (buf c)) \<le> 1)"
proof -
  have st: "Start False ''uuid'' w0 = Returns w1"
    by (simp add: Start_def Let_def make_chan_def w0_def w1_def MinLeaseDuration_def)
  have "step w1 (w1\<lparr>itemQ := Some (\<lparr>buf = [], cap = 1, closed = False\<rparr>\<lparr>buf := buf \<lparr>buf = [], cap = 1, closed = False\<rparr> @ [fresh]\<rparr>)\<rparr>)"
    by (rule step.send) (simp_all add: w1_def)
  then have run: "step\<^sup>*\<^sup>* w1 (w1\<lparr>itemQ := Some \<lparr>buf = [fresh], cap = 1, closed = False\<rparr>\<rparr>)"
    by simp
  from itemQ_bounded [OF st run] st run show ?thesis
    by (simp add: w0_def w1_def)
qed

subsection \<open>The HTTP processor\<close>

text \<open>
  C7, as amended. For a call of \<open>Process\<close> whose post returns a response: if the body decodes and
  the envelope's \<open>error\<close> is not null, the result is the error
  \<open>Status <s>; message: <m>\<close>, non-retryable exactly when \<open>no_retry\<close> is true, whatever
  the status code; if the body decodes, \<open>error\<close> is null and the status code is outside
  200 to 299, the result is a retryable error whose message is the status string; if
  the body fails to decode, the result is an error whose message holds the decoder's
  message and the HTTP status, and which wraps the decoder's error, so that it is
  retryable exactly when that error is.
\<close>

theorem Process_errors:
  assumes post: "Post h (Target h) ''application/json'' b = (Some resp, None)"
  shows "(Decode h (http_Body resp) = (env, None) \<and> env_Error env = Some pe \<longrightarrow>
            (\<exists>e. Process h b = Returns (None, Some e) \<and>
                 Error e = ''Status '' @ http_Status resp @ ''; message: '' @ Message pe \<and>
                 (\<not> IsRetryable e) = NoRetry pe)) \<and>
         (Decode h (http_Body resp) = (env, None) \<and> env_Error env = None \<and>
          (sint (http_StatusCode resp) < 200 \<or> 299 < sint (http_StatusCode resp)) \<longrightarrow>
            Process h b = Returns (None, Some (New (http_Status resp))) \<and>
            IsRetryable (New (http_Status resp)) \<and>
            Error (New (http_Status resp)) = http_Status resp) \<and>
         (Decode h (http_Body resp) = (env, Some derr) \<longrightarrow>
            (\<exists>e. Process h b = Returns (None, Some e) \<and>
                 Error e = ''marshal error: '' @ Error derr @
                           '', from request with HTTP Status: '' @ http_Status resp \<and>
                 IsRetryable e = IsRetryable derr))"
  using post by (auto simp add: Process_def Let_def)

text \<open>The cases of the repository's test of \<open>Process\<close>: status 500 with a
  \<open>no_retry\<close> error, status 200 with an error, status 400 with an empty envelope, and
  an empty body.\<close>

theorem Process_errors_witness:
  "(\<exists>e. Process (mock 500 ''HTTP 500'' [1]) [] = Returns (None, Some e) \<and>
        Error e = ''Status HTTP 500; message: additional error context'' \<and> \<not> IsRetryable e) \<and>
   (\<exists>e. Process (mock 200 ''HTTP 200'' [2]) [] = Returns (None, Some e) \<and>
        Error e = ''Status HTTP 200; message: x'' \<and> IsRetryable e) \<and>
   Process (mock 400 ''HTTP 400'' [3]) [] = Returns (None, Some (New ''HTTP 400'')) \<and>
   (\<exists>e. Process (mock 200 ''HTTP 200'' []) [] = Returns (None, Some e) \<and>
        Error e = ''marshal error: EOF, from request with HTTP Status: HTTP 200'' \<and> IsRetryable e)"
proof -
  have p: "\<And>c s body. Post (mock c s body) (Target (mock c s body)) ''application/json'' []
      = (Some \<lparr>http_Status = s, http_StatusCode = c, http_Body = body\<rparr>, None)"
    by (simp add: mock_def)
  have d: "Decode (mock c s body) = mock_decode" for c s body
    by (simp add: mock_def)
  note t = Process_errors [OF p]
  have a: "\<exists>e. Process (mock 500 ''HTTP 500'' [1]) [] = Returns (None, Some e) \<and>
        Error e = ''Status HTTP 500; message: additional error context'' \<and> \<not> IsRetryable e"
    using t [of 500 "''HTTP 500''" "[1]" "fst (mock_decode [1])"
        "\<lparr>Message = ''additional error context'', NoRetry = True\<rparr>" undefined]
    by (simp add: d mock_decode_def)
  have b: "\<exists>e. Process (mock 200 ''HTTP 200'' [2]) [] = Returns (None, Some e) \<and>
        Error e = ''Status HTTP 200; message: x'' \<and> IsRetryable e"
    using t [of 200 "''HTTP 200''" "[2]" "fst (mock_decode [2])"
        "\<lparr>Message = ''x'', NoRetry = False\<rparr>" undefined]
    by (simp add: d mock_decode_def)
  have c: "Process (mock 400 ''HTTP 400'' [3]) [] = Returns (None, Some (New ''HTTP 400''))"
    using t [of 400 "''HTTP 400''" "[3]" "fst (mock_decode [3])" undefined undefined]
    by (simp add: d mock_decode_def)
  have e: "\<exists>e. Process (mock 200 ''HTTP 200'' []) [] = Returns (None, Some e) \<and>
        Error e = ''marshal error: EOF, from request with HTTP Status: HTTP 200'' \<and> IsRetryable e"
    using t [of 200 "''HTTP 200''" "[]" "fst (mock_decode [])" undefined "New ''EOF''"]
    by (simp add: d mock_decode_def)
  from a b c e show ?thesis by blast
qed

text \<open>
  The claim as stated fails: when the decoder's error carries the non-retryable mark,
  the error that \<open>Process\<close> returns for the decode failure wraps it and is not
  retryable.
\<close>

theorem Process_decode_counterexample:
  "Process marked [] =
     Returns (None, Some (Errorf_w
        ''marshal error: read failed, from request with HTTP Status: HTTP 200''
        (NonRetryableError ''read failed''))) \<and>
   \<not> IsRetryable (Errorf_w
        ''marshal error: read failed, from request with HTTP Status: HTTP 200''
        (NonRetryableError ''read failed''))"
  by (simp add: Process_def marked_def mock_def)

text \<open>
  C10. With a health endpoint set, \<open>Healthcheck\<close> closes the body of the response
  before it looks at the error of the GET. When the client returns a nil response,
  as \<open>http.Client\<close> does together with a transport error and as the mock client of the
  test does, the call panics, and the error of the GET is not returned.
\<close>

theorem Healthcheck_nil_response:
  "Healthcheck unreachable = Panics (Some (New ''connection refused'')) \<and>
   Healthcheck (mock 200 ''HTTP 200'' []) = Panics None"
  by (simp add: Healthcheck_def unreachable_def mock_def)

text \<open>Apart from that, \<open>Healthcheck\<close> returns nil without an endpoint, and the error of
  the GET when the client returns a response, whose status code it never reads.\<close>

lemma Healthcheck_cases:
  "Healthcheck h =
     (if HealthEndpoint h = [] then Returns None
      else if fst (Get h (path_Join h (Target h) (HealthEndpoint h))) = None
      then Panics (snd (Get h (path_Join h (Target h) (HealthEndpoint h))))
      else Returns (snd (Get h (path_Join h (Target h) (HealthEndpoint h)))))"
  by (auto simp add: Healthcheck_def split: prod.splits option.splits)

end
